theory Spec2Isabelle
  imports Complex_Main "HOL-Library.Monad_Syntax"
begin

section \<open>Data model (app/models/generation.py)\<close>

text \<open>
  \<^verbatim>\<open>JobStatus\<close> is a string enumeration; \<open>status_value\<close> gives the string each member
  carries (the value that \<^verbatim>\<open>json.dump\<close> writes for it).
\<close>

datatype JobStatus = PENDING | PROCESSING | COMPLETED | FAILED

fun status_value :: "JobStatus \<Rightarrow> string" where
  "status_value PENDING = ''pending''"
| "status_value PROCESSING = ''processing''"
| "status_value COMPLETED = ''completed''"
| "status_value FAILED = ''failed''"

text \<open>
  \<^verbatim>\<open>GenerationParams\<close>: Python integers are \<open>int\<close>; the three float fields are only
  carried around by the code under study, never computed with, and are modelled as
  rationals (finite floats).
\<close>

record GenerationParams =
  prompt :: string
  a_prompt :: string
  n_prompt :: string
  num_samples :: int
  image_resolution :: int
  ddim_steps :: int
  strength :: rat
  scale :: rat
  seed :: int
  eta :: rat
  low_threshold :: int
  high_threshold :: int

text \<open>The \<^verbatim>\<open>Field(ge=..., le=...)\<close> constraints, checked by the API layer before a handler runs.\<close>

definition valid_params :: "GenerationParams \<Rightarrow> bool" where
  "valid_params p \<longleftrightarrow>
     1 \<le> num_samples p \<and> num_samples p \<le> 4 \<and>
     256 \<le> image_resolution p \<and> image_resolution p \<le> 1024 \<and>
     1 \<le> ddim_steps p \<and> ddim_steps p \<le> 100 \<and>
     0 \<le> strength p \<and> strength p \<le> 1 \<and>
     1 \<le> scale p \<and> scale p \<le> 20 \<and>
     0 \<le> low_threshold p \<and> low_threshold p \<le> 255 \<and>
     0 \<le> high_threshold p \<and> high_threshold p \<le> 255"

section \<open>Images, files and the world outside the process\<close>

text \<open>
  An image has a size (width, height) and pixel data. What the imaging libraries compute
  on pixels is outside this repository, so pixel data is kept symbolic: \<open>Resampled d sz\<close>
  stands for the LANCZOS resampling of \<open>d\<close> to size \<open>sz\<close>.
\<close>

datatype pixels = Pixels "nat list" | Resampled pixels "nat \<times> nat"

record image =
  img_size :: "nat \<times> nat"
  img_data :: pixels

text \<open>JSON documents as values (what \<^verbatim>\<open>json.dump\<close> serialises and \<^verbatim>\<open>json.load\<close> reads back).\<close>

datatype json =
    JString string
  | JInt int
  | JFloat rat
  | JArray "json list"
  | JObject "(string \<times> json) list"

datatype content = Png image | JsonDoc json | Blob "nat list"

text \<open>
  Every exception the code can raise is a value. \<open>ExternalError\<close> is whatever an external
  library (the model, the sampler, the edge detector) raises.
\<close>

datatype error =
    ValueError string
  | OSError "string list"
  | IndexError
  | RuntimeError string
  | ExternalError string

datatype http_error = HTTPException nat string

text \<open>
  Paths are lists of components below \<^verbatim>\<open>settings.JOBS_DIR\<close>: the job directory of \<open>j\<close> is
  \<open>[j]\<close>, its input file \<open>[j, ''input.png'']\<close>.

  The generators of random numbers (\<^verbatim>\<open>torch\<close>'s and \<^verbatim>\<open>numpy\<close>'s global ones) are process-wide
  state; their states are encoded as naturals.

  \<open>unwritable\<close> holds the paths at which the operating system refuses a write (permissions,
  full disk); \<open>written\<close> is the history of successful file writes, oldest first.
\<close>

type_synonym path = "string list"

record rng =
  torch_state :: nat
  numpy_state :: nat

record world =
  files :: "(path \<times> content) list"
  dirs :: "path set"
  unwritable :: "path set"
  rng_of :: rng
  written :: "path list"

definition lookup :: "world \<Rightarrow> path \<Rightarrow> content option" where
  "lookup w p = map_of (files w) p"

definition path_exists :: "world \<Rightarrow> path \<Rightarrow> bool" where
  "path_exists w p \<longleftrightarrow> p \<in> dirs w \<or> lookup w p \<noteq> None"

text \<open>
  Opening a file for writing fails when its directory is missing, when the path is a
  directory, or when the operating system refuses.
\<close>

definition fs_write :: "world \<Rightarrow> path \<Rightarrow> content \<Rightarrow> error + world" where
  "fs_write w p c =
     (if p = [] \<or> butlast p \<notin> dirs w \<or> p \<in> dirs w \<or> p \<in> unwritable w then Inl (OSError p)
      else Inr (w\<lparr>files := (p, c) # filter (\<lambda>(q, _). q \<noteq> p) (files w),
                  written := written w @ [p]\<rparr>))"

text \<open>\<^verbatim>\<open>mkdir(parents=True, exist_ok=True)\<close> of a directory directly below the jobs root.\<close>

definition fs_mkdir :: "world \<Rightarrow> path \<Rightarrow> error + world" where
  "fs_mkdir w p =
     (if lookup w p \<noteq> None \<or> p \<in> unwritable w then Inl (OSError p)
      else Inr (w\<lparr>dirs := insert p (dirs w)\<rparr>))"

section \<open>Formatting integers (f-strings)\<close>

definition digit_char :: "nat \<Rightarrow> char" where
  "digit_char d = char_of (48 + d)"

function str_nat :: "nat \<Rightarrow> string" where
  "str_nat n = (if n < 10 then [digit_char n] else str_nat (n div 10) @ [digit_char (n mod 10)])"
  by pat_completeness auto
termination
  by (relation "measure id") auto

declare str_nat.simps [simp del]

text \<open>\<^verbatim>\<open>f"result_{idx}.png"\<close>\<close>

definition result_name :: "nat \<Rightarrow> string" where
  "result_name idx = ''result_'' @ str_nat idx @ ''.png''"

section \<open>The inference gateway (app/services/controlnet.py)\<close>

text \<open>
  The service object holds the loaded model. The callables it uses from outside the
  repository are its fields here:
  \<^item> \<open>hwc3\<close>, \<open>resize_image\<close> (\<^verbatim>\<open>annotator.util\<close>) and \<open>apply_canny\<close>: functions of their
    arguments alone;
  \<^item> \<open>sample\<close>: everything from building the control tensor to the decoded, clipped
    \<^verbatim>\<open>x_samples\<close> batch (conditioning, DDIM sampling, decoding), a function of the edge
    map, the parameters and the state of the random generators, which it advances.
\<close>

record ControlNetService =
  hwc3 :: "image \<Rightarrow> error + image"
  resize_image :: "image \<Rightarrow> int \<Rightarrow> error + image"
  apply_canny :: "image \<Rightarrow> int \<Rightarrow> int \<Rightarrow> error + image"
  sample :: "image \<Rightarrow> GenerationParams \<Rightarrow> rng \<Rightarrow> (error + image list) \<times> rng"

text \<open>
  \<^verbatim>\<open>_load_image\<close>: \<^verbatim>\<open>cv2.imread\<close> returns \<^verbatim>\<open>None\<close> for a missing or undecodable file; the
  colour conversion only reorders channels and is part of the symbolic pixel data.
\<close>

definition load_image :: "world \<Rightarrow> path \<Rightarrow> error + image" where
  "load_image w p =
     (case lookup w p of
        Some (Png img) \<Rightarrow> Inr img
      | _ \<Rightarrow> Inl (ValueError ''Failed to load input image''))"

text \<open>
  \<^verbatim>\<open>torch.manual_seed(seed); np.random.seed(seed)\<close>: the first rejects integers outside
  64 bits, the second (run only when the first passed) integers outside \<open>[0, 2^32)\<close>.
  Each generator that accepts the seed is left in a state fixed by the seed.
\<close>

definition manual_seed :: "int \<Rightarrow> rng \<Rightarrow> (error + unit) \<times> rng" where
  "manual_seed s g =
     (if s < - (2 ^ 63) \<or> 2 ^ 64 \<le> s then (Inl (RuntimeError ''Overflow when unpacking long''), g)
      else if s < 0 \<or> 2 ^ 32 \<le> s
        then (Inl (ValueError ''Seed must be between 0 and 2**32 - 1''), g\<lparr>torch_state := nat (s mod 2 ^ 64)\<rparr>)
      else (Inr (), \<lparr>torch_state = nat (s mod 2 ^ 64), numpy_state = nat s\<rparr>))"

text \<open>\<^verbatim>\<open>[x_samples[i] for i in range(num_samples)]\<close>: indexing past the batch raises.\<close>

definition first_samples :: "image list \<Rightarrow> int \<Rightarrow> error + image list" where
  "first_samples x_samples n =
     (if nat n \<le> length x_samples then Inr (take (nat n) x_samples) else Inl IndexError)"

definition generate :: "ControlNetService \<Rightarrow> image \<Rightarrow> GenerationParams \<Rightarrow> rng \<Rightarrow> (error + image list) \<times> rng" where
  "generate svc input_image p g =
     (case hwc3 svc input_image of
        Inl e \<Rightarrow> (Inl e, g)
      | Inr i0 \<Rightarrow>
     (case resize_image svc i0 (image_resolution p) of
        Inl e \<Rightarrow> (Inl e, g)
      | Inr img \<Rightarrow>
     (case apply_canny svc img (low_threshold p) (high_threshold p) of
        Inl e \<Rightarrow> (Inl e, g)
      | Inr d0 \<Rightarrow>
     (case hwc3 svc d0 of
        Inl e \<Rightarrow> (Inl e, g)
      | Inr detected_map \<Rightarrow>
     (case (if seed p \<noteq> - 1 then manual_seed (seed p) g else (Inr (), g)) of
        (Inl e, g1) \<Rightarrow> (Inl e, g1)
      | (Inr _, g1) \<Rightarrow>
     (case sample svc detected_map p g1 of
        (Inl e, g2) \<Rightarrow> (Inl e, g2)
      | (Inr x_samples, g2) \<Rightarrow> (first_samples x_samples (num_samples p), g2)))))))"

text \<open>
  The saving loop of \<^verbatim>\<open>process_image\<close>: \<open>idx\<close> is the index \<^verbatim>\<open>enumerate\<close> gives the head of
  the remaining results, \<open>result_paths\<close> the names appended so far.
\<close>

fun save_results :: "world \<Rightarrow> string \<Rightarrow> nat \<Rightarrow> image list \<Rightarrow> string list \<Rightarrow> (error + string list) \<times> world" where
  "save_results w job_id idx [] result_paths = (Inr result_paths, w)"
| "save_results w job_id idx (result # rest) result_paths =
     (case fs_write w [job_id, result_name idx] (Png result) of
        Inl e \<Rightarrow> (Inl e, w)
      | Inr w' \<Rightarrow> save_results w' job_id (Suc idx) rest (result_paths @ [result_name idx]))"

definition process_image :: "ControlNetService \<Rightarrow> world \<Rightarrow> string \<Rightarrow> GenerationParams \<Rightarrow> (error + string list) \<times> world" where
  "process_image svc w job_id p =
     (case load_image w [job_id, ''input.png''] of
        Inl e \<Rightarrow> (Inl e, w)
      | Inr input_image \<Rightarrow>
          (case generate svc input_image p (rng_of w) of
             (Inl e, g) \<Rightarrow> (Inl e, w\<lparr>rng_of := g\<rparr>)
           | (Inr results, g) \<Rightarrow> save_results (w\<lparr>rng_of := g\<rparr>) job_id 0 results []))"

section \<open>The job coordinator (app/services/job_manager.py)\<close>

record JobManager =
  controlnet :: ControlNetService
  jobs :: "string \<rightharpoonup> JobStatus"
  lock :: bool

text \<open>\<^verbatim>\<open>JobManager.__init__\<close>: no job recorded, the lock free.\<close>

definition new_manager :: "ControlNetService \<Rightarrow> JobManager" where
  "new_manager svc = \<lparr>controlnet = svc, jobs = Map.empty, lock = False\<rparr>"

definition get_job_status :: "JobManager \<Rightarrow> string \<Rightarrow> JobStatus" where
  "get_job_status jm job_id = (case jobs jm job_id of None \<Rightarrow> PENDING | Some s \<Rightarrow> s)"

definition set_status :: "JobManager \<Rightarrow> string \<Rightarrow> JobStatus \<Rightarrow> JobManager" where
  "set_status jm job_id s = jm\<lparr>jobs := (jobs jm)(job_id \<mapsto> s)\<rparr>"

text \<open>\<^verbatim>\<open>params.model_dump()\<close> and the metadata dictionary of \<^verbatim>\<open>_save_job_metadata\<close>.\<close>

definition model_dump :: "GenerationParams \<Rightarrow> json" where
  "model_dump p = JObject
     [(''prompt'', JString (prompt p)),
      (''a_prompt'', JString (a_prompt p)),
      (''n_prompt'', JString (n_prompt p)),
      (''num_samples'', JInt (num_samples p)),
      (''image_resolution'', JInt (image_resolution p)),
      (''ddim_steps'', JInt (ddim_steps p)),
      (''strength'', JFloat (strength p)),
      (''scale'', JFloat (scale p)),
      (''seed'', JInt (seed p)),
      (''eta'', JFloat (eta p)),
      (''low_threshold'', JInt (low_threshold p)),
      (''high_threshold'', JInt (high_threshold p))]"

definition metadata_doc :: "GenerationParams \<Rightarrow> string list \<Rightarrow> json" where
  "metadata_doc p result_paths = JObject
     [(''parameters'', model_dump p),
      (''results'', JArray (map JString result_paths)),
      (''status'', JString (status_value COMPLETED))]"

definition save_job_metadata :: "world \<Rightarrow> string \<Rightarrow> GenerationParams \<Rightarrow> string list \<Rightarrow> error + world" where
  "save_job_metadata w job_id p result_paths =
     fs_write w [job_id, ''metadata.json''] (JsonDoc (metadata_doc p result_paths))"

text \<open>
  \<^verbatim>\<open>process_job\<close>, run without interruption from acquiring the lock to releasing it. The
  result is the returned list of names or the exception that leaves the function.
\<close>

definition process_job :: "JobManager \<Rightarrow> world \<Rightarrow> string \<Rightarrow> GenerationParams \<Rightarrow> (error + string list) \<times> JobManager \<times> world" where
  "process_job jm w job_id p =
     (let jm1 = set_status jm job_id PROCESSING in
      case process_image (controlnet jm1) w job_id p of
        (Inl e, w1) \<Rightarrow> (Inl e, set_status jm1 job_id FAILED, w1)
      | (Inr result_paths, w1) \<Rightarrow>
          (case save_job_metadata w1 job_id p result_paths of
             Inl e \<Rightarrow> (Inl e, set_status jm1 job_id FAILED, w1)
           | Inr w2 \<Rightarrow> (Inr result_paths, set_status jm1 job_id COMPLETED, w2)))"

subsection \<open>Reading the metadata back\<close>

text \<open>
  Nothing in the repository reads \<^verbatim>\<open>metadata.json\<close>. The reader below is the one a round
  trip needs: \<^verbatim>\<open>json.load\<close>, then \<^verbatim>\<open>GenerationParams(**d["parameters"])\<close>, the list under
  \<^verbatim>\<open>"results"\<close> and the string under \<^verbatim>\<open>"status"\<close>. A float field accepts a JSON integer.
\<close>

fun json_field :: "string \<Rightarrow> json \<Rightarrow> json option" where
  "json_field k (JObject kvs) = map_of kvs k"
| "json_field k _ = None"

fun as_string :: "json \<Rightarrow> string option" where
  "as_string (JString s) = Some s"
| "as_string _ = None"

fun as_int :: "json \<Rightarrow> int option" where
  "as_int (JInt i) = Some i"
| "as_int _ = None"

fun as_float :: "json \<Rightarrow> rat option" where
  "as_float (JFloat x) = Some x"
| "as_float (JInt i) = Some (of_int i)"
| "as_float _ = None"

fun as_strings :: "json list \<Rightarrow> string list option" where
  "as_strings [] = Some []"
| "as_strings (x # xs) =
     (case as_string x of
        None \<Rightarrow> None
      | Some s \<Rightarrow> (case as_strings xs of None \<Rightarrow> None | Some ss \<Rightarrow> Some (s # ss)))"

fun as_string_list :: "json \<Rightarrow> string list option" where
  "as_string_list (JArray xs) = as_strings xs"
| "as_string_list _ = None"

definition read_params :: "json \<Rightarrow> GenerationParams option" where
  "read_params d = do {
     v1 \<leftarrow> json_field ''prompt'' d \<bind> as_string;
     v2 \<leftarrow> json_field ''a_prompt'' d \<bind> as_string;
     v3 \<leftarrow> json_field ''n_prompt'' d \<bind> as_string;
     v4 \<leftarrow> json_field ''num_samples'' d \<bind> as_int;
     v5 \<leftarrow> json_field ''image_resolution'' d \<bind> as_int;
     v6 \<leftarrow> json_field ''ddim_steps'' d \<bind> as_int;
     v7 \<leftarrow> json_field ''strength'' d \<bind> as_float;
     v8 \<leftarrow> json_field ''scale'' d \<bind> as_float;
     v9 \<leftarrow> json_field ''seed'' d \<bind> as_int;
     v10 \<leftarrow> json_field ''eta'' d \<bind> as_float;
     v11 \<leftarrow> json_field ''low_threshold'' d \<bind> as_int;
     v12 \<leftarrow> json_field ''high_threshold'' d \<bind> as_int;
     Some \<lparr>prompt = v1, a_prompt = v2, n_prompt = v3, num_samples = v4, image_resolution = v5,
           ddim_steps = v6, strength = v7, scale = v8, seed = v9, eta = v10,
           low_threshold = v11, high_threshold = v12\<rparr>
   }"

definition read_metadata :: "json \<Rightarrow> (GenerationParams \<times> string list \<times> string) option" where
  "read_metadata d = do {
     p \<leftarrow> json_field ''parameters'' d \<bind> read_params;
     rs \<leftarrow> json_field ''results'' d \<bind> as_string_list;
     st \<leftarrow> json_field ''status'' d \<bind> as_string;
     Some (p, rs, st)
   }"

section \<open>The API layer (app/api/deps.py, app/api/endpoints/generation.py)\<close>

record response =
  r_job_id :: string
  r_status :: JobStatus
  r_message :: "string option"
  r_images :: "string list option"

text \<open>\<^verbatim>\<open>str(e)\<close> of an \<^verbatim>\<open>HTTPException\<close> is its status code, a colon and its detail.\<close>

fun str_http :: "http_error \<Rightarrow> string" where
  "str_http (HTTPException code detail) = str_nat code @ '': '' @ detail"

fun str_error :: "error \<Rightarrow> string" where
  "str_error (ValueError m) = m"
| "str_error (OSError p) = concat (map (\<lambda>c. ''/'' @ c) p)"
| "str_error IndexError = ''index out of bounds''"
| "str_error (RuntimeError m) = m"
| "str_error (ExternalError m) = m"

definition verify_job_id :: "world \<Rightarrow> string \<Rightarrow> http_error + string" where
  "verify_job_id w job_id =
     (if \<not> path_exists w [job_id] then Inl (HTTPException 404 ''Job not found'') else Inr job_id)"

subsection \<open>Upload: the resize arithmetic in binary64\<close>

text \<open>
  \<^verbatim>\<open>ratio = settings.MAX_IMAGE_SIZE / max(image.size)\<close> is Python's true division of two
  integers (the quotient correctly rounded to a 53-bit significand, ties to even);
  \<^verbatim>\<open>dim * ratio\<close> converts \<open>dim\<close> to a float and multiplies, again correctly rounded;
  \<^verbatim>\<open>int(...)\<close> truncates. A non-negative float is a significand and an exponent, standing
  for \<open>mant * 2 ^ expo\<close>. All operands here are non-negative and far inside the range of
  normal numbers.
\<close>

record pyfloat =
  mant :: nat
  expo :: int

function bit_length :: "nat \<Rightarrow> nat" where
  "bit_length n = (if n = 0 then 0 else Suc (bit_length (n div 2)))"
  by pat_completeness auto
termination
  by (relation "measure id") auto

declare bit_length.simps [simp del]

definition round_half_even :: "nat \<Rightarrow> nat \<Rightarrow> nat" where
  "round_half_even n d =
     (let q = n div d; r = n mod d in
      if 2 * r < d then q
      else if d < 2 * r then q + 1
      else if even q then q else q + 1)"

definition scaled_quotient :: "nat \<Rightarrow> nat \<Rightarrow> int \<Rightarrow> nat \<times> nat" where
  "scaled_quotient a b s = (if 0 \<le> s then (a * 2 ^ nat s, b) else (a, b * 2 ^ nat (- s)))"

definition float_div :: "nat \<Rightarrow> nat \<Rightarrow> pyfloat" where
  "float_div a b =
     (if a = 0 then \<lparr>mant = 0, expo = 0\<rparr>
      else
        let s0 = 53 + int (bit_length b) - int (bit_length a);
            nd0 = scaled_quotient a b s0;
            s = (if 2 ^ 53 \<le> fst nd0 div snd nd0 then s0 - 1 else s0);
            nd = scaled_quotient a b s
        in \<lparr>mant = round_half_even (fst nd) (snd nd), expo = - s\<rparr>)"

definition float_mul_int :: "nat \<Rightarrow> pyfloat \<Rightarrow> pyfloat" where
  "float_mul_int k x =
     (let p = k * mant x; l = bit_length p in
      if l \<le> 53 then \<lparr>mant = p, expo = expo x\<rparr>
      else \<lparr>mant = round_half_even p (2 ^ (l - 53)), expo = expo x + int (l - 53)\<rparr>)"

definition float_trunc :: "pyfloat \<Rightarrow> nat" where
  "float_trunc x = (if 0 \<le> expo x then mant x * 2 ^ nat (expo x) else mant x div 2 ^ nat (- expo x))"

text \<open>
  \<^verbatim>\<open>new_size = original_size; if max(image.size) > MAX: ratio = MAX / max(image.size);
  new_size = tuple(int(dim * ratio) for dim in image.size)\<close>
\<close>

definition upload_new_size :: "nat \<Rightarrow> nat \<times> nat \<Rightarrow> nat \<times> nat" where
  "upload_new_size max_size sz =
     (if max_size < max (fst sz) (snd sz) then
        let ratio = float_div max_size (max (fst sz) (snd sz))
        in (float_trunc (float_mul_int (fst sz) ratio), float_trunc (float_mul_int (snd sz) ratio))
      else sz)"

text \<open>\<^verbatim>\<open>Image.resize\<close> refuses a size with a zero side.\<close>

definition pil_resize :: "image \<Rightarrow> nat \<times> nat \<Rightarrow> error + image" where
  "pil_resize img sz =
     (if fst sz = 0 \<or> snd sz = 0 then Inl (ValueError ''height and width must be > 0'')
      else Inr \<lparr>img_size = sz, img_data = Resampled (img_data img) sz\<rparr>)"

definition str_size :: "nat \<times> nat \<Rightarrow> string" where
  "str_size sz = ''('' @ str_nat (fst sz) @ '', '' @ str_nat (snd sz) @ '')''"

text \<open>
  \<^verbatim>\<open>upload_image\<close>: \<open>file\<close> is the uploaded content (only a PNG opens as an image), \<open>job_id\<close>
  the identifier \<^verbatim>\<open>uuid4\<close> draws.
\<close>

definition upload_image :: "nat \<Rightarrow> world \<Rightarrow> content \<Rightarrow> string \<Rightarrow> (http_error + response) \<times> world" where
  "upload_image max_size w file job_id =
     (case file of
        Png image0 \<Rightarrow>
          (let original_size = img_size image0;
               new_size = upload_new_size max_size original_size
           in case (if max_size < max (fst original_size) (snd original_size)
                    then pil_resize image0 new_size else Inr image0) of
                Inl e \<Rightarrow> (Inl (HTTPException 500 (''Unexpected error during upload: '' @ str_error e)), w)
              | Inr image1 \<Rightarrow>
                  (case fs_mkdir w [job_id] of
                     Inl e \<Rightarrow> (Inl (HTTPException 500 (''Failed to create job directory: '' @ str_error e)), w)
                   | Inr w1 \<Rightarrow>
                       (case fs_write w1 [job_id, ''input.png''] (Png image1) of
                          Inl e \<Rightarrow> (Inl (HTTPException 500 (''Failed to save image: '' @ str_error e)), w1)
                        | Inr w2 \<Rightarrow>
                            (Inr \<lparr>r_job_id = job_id, r_status = PENDING,
                                  r_message = Some (''Image uploaded successfully'' @
                                    (if new_size \<noteq> original_size
                                     then '' and resized from '' @ str_size original_size @ '' to '' @ str_size new_size
                                     else [])),
                                  r_images = None\<rparr>, w2))))
      | _ \<Rightarrow> (Inl (HTTPException 400 ''Invalid image file''), w))"

subsection \<open>Status poll and result fetch\<close>

text \<open>\<^verbatim>\<open>job_dir.glob("result_*.png")\<close>: the names in the job directory that match the pattern.\<close>

definition is_result_file :: "string \<Rightarrow> bool" where
  "is_result_file n \<longleftrightarrow>
     11 \<le> length n \<and> take 7 n = ''result_'' \<and> drop (length n - 4) n = ''.png''"

definition glob_results :: "world \<Rightarrow> string \<Rightarrow> string list" where
  "glob_results w job_id =
     map (\<lambda>pc. last (fst pc))
       (filter (\<lambda>pc. length (fst pc) = 2 \<and> hd (fst pc) = job_id \<and> is_result_file (last (fst pc))) (files w))"

definition get_job_status_endpoint :: "JobManager \<Rightarrow> world \<Rightarrow> string \<Rightarrow> http_error + response" where
  "get_job_status_endpoint jm w job_id0 =
     (case verify_job_id w job_id0 of
        Inl e \<Rightarrow> Inl e
      | Inr job_id \<Rightarrow>
          (let status = get_job_status jm job_id in
           if status = COMPLETED
           then Inr \<lparr>r_job_id = job_id, r_status = status, r_message = None,
                     r_images = Some (glob_results w job_id)\<rparr>
           else Inr \<lparr>r_job_id = job_id, r_status = status, r_message = None, r_images = None\<rparr>))"

text \<open>
  \<^verbatim>\<open>get_result_image\<close>: the dependency runs before the handler, outside its \<^verbatim>\<open>try\<close>. Inside,
  the 404 is raised within \<^verbatim>\<open>try: ... except Exception as e\<close>, and \<^verbatim>\<open>HTTPException\<close> is
  an \<^verbatim>\<open>Exception\<close>: the handler catches it and raises a 500 whose detail is \<^verbatim>\<open>str(e)\<close>.
  \<open>result_image_body\<close> is the body of the \<^verbatim>\<open>try\<close>; \<open>file_response\<close> is what sending the
  \<^verbatim>\<open>FileResponse\<close> delivers: the content of the file at its path, or a server error for
  a path that is no regular file.
\<close>

definition result_image_body :: "world \<Rightarrow> string \<Rightarrow> string \<Rightarrow> http_error + path" where
  "result_image_body w job_id image_name =
     (if \<not> path_exists w [job_id, image_name] then Inl (HTTPException 404 ''Image not found'')
      else Inr [job_id, image_name])"

definition file_response :: "world \<Rightarrow> path \<Rightarrow> http_error + content" where
  "file_response w p =
     (case lookup w p of
        Some c \<Rightarrow> Inr c
      | None \<Rightarrow> Inl (HTTPException 500 ''Internal Server Error''))"

definition get_result_image :: "world \<Rightarrow> string \<Rightarrow> string \<Rightarrow> http_error + content" where
  "get_result_image w job_id0 image_name =
     (case verify_job_id w job_id0 of
        Inl e \<Rightarrow> Inl e
      | Inr job_id \<Rightarrow>
          (case result_image_body w job_id image_name of
             Inl e \<Rightarrow> Inl (HTTPException 500 (str_http e))
           | Inr p \<Rightarrow> file_response w p))"

section \<open>Background tasks and their interleaving\<close>

text \<open>
  A background task is one invocation of \<^verbatim>\<open>process_job\<close>. Its program counter says where
  in the body it stands:
  \<^item> \<open>Waiting\<close>: at \<^verbatim>\<open>async with self._lock\<close>, the lock not yet acquired;
  \<^item> \<open>Acquired\<close>: lock held, before \<^verbatim>\<open>self._jobs[job_id] = JobStatus.PROCESSING\<close>;
  \<^item> \<open>InGateway\<close>: status set, inside \<^verbatim>\<open>await self.controlnet.process_image(...)\<close>;
  \<^item> \<open>Returned r\<close>: the gateway call is over, with its result or its exception;
  \<^item> \<open>Saved rs\<close>: the metadata is written, before \<^verbatim>\<open>self._jobs[job_id] = JobStatus.COMPLETED\<close>;
  \<^item> \<open>Handler e\<close>: in the \<^verbatim>\<open>except\<close> clause, before \<^verbatim>\<open>self._jobs[job_id] = JobStatus.FAILED\<close>;
  \<^item> \<open>Exiting r\<close>: leaving the \<^verbatim>\<open>async with\<close> block, the lock still held;
  \<^item> \<open>Finished r\<close>: the lock released, the invocation over.
  The scheduler may switch tasks between any two of these points, which is more than the
  event loop does (it switches only where a task awaits).
\<close>

datatype pc =
    Waiting
  | Acquired
  | InGateway
  | Returned "error + string list"
  | Saved "string list"
  | Handler error
  | Exiting "error + string list"
  | Finished "error + string list"

record task =
  t_job :: string
  t_params :: GenerationParams
  t_pc :: pc

record system =
  manager :: JobManager
  env :: world
  tasks :: "task list"
  max_image_size :: nat

definition init_system :: "ControlNetService \<Rightarrow> world \<Rightarrow> nat \<Rightarrow> system" where
  "init_system svc w m = \<lparr>manager = new_manager svc, env = w, tasks = [], max_image_size = m\<rparr>"

definition set_pc :: "system \<Rightarrow> nat \<Rightarrow> pc \<Rightarrow> system" where
  "set_pc s i c = s\<lparr>tasks := (tasks s)[i := (tasks s ! i)\<lparr>t_pc := c\<rparr>]\<rparr>"

text \<open>One step of task \<open>i\<close>; \<open>None\<close> when the task cannot move (blocked on the lock, or over).\<close>

definition step_task :: "system \<Rightarrow> nat \<Rightarrow> system option" where
  "step_task s i =
     (if length (tasks s) \<le> i then None
      else
        let t = tasks s ! i; job_id = t_job t; p = t_params t in
        case t_pc t of
          Waiting \<Rightarrow>
            if lock (manager s) then None
            else Some (set_pc (s\<lparr>manager := (manager s)\<lparr>lock := True\<rparr>\<rparr>) i Acquired)
        | Acquired \<Rightarrow>
            Some (set_pc (s\<lparr>manager := set_status (manager s) job_id PROCESSING\<rparr>) i InGateway)
        | InGateway \<Rightarrow>
            (let rw = process_image (controlnet (manager s)) (env s) job_id p
             in Some (set_pc (s\<lparr>env := snd rw\<rparr>) i (Returned (fst rw))))
        | Returned r \<Rightarrow>
            (case r of
               Inl e \<Rightarrow> Some (set_pc s i (Handler e))
             | Inr result_paths \<Rightarrow>
                 (case save_job_metadata (env s) job_id p result_paths of
                    Inl e \<Rightarrow> Some (set_pc s i (Handler e))
                  | Inr w2 \<Rightarrow> Some (set_pc (s\<lparr>env := w2\<rparr>) i (Saved result_paths))))
        | Saved result_paths \<Rightarrow>
            Some (set_pc (s\<lparr>manager := set_status (manager s) job_id COMPLETED\<rparr>) i (Exiting (Inr result_paths)))
        | Handler e \<Rightarrow>
            Some (set_pc (s\<lparr>manager := set_status (manager s) job_id FAILED\<rparr>) i (Exiting (Inl e)))
        | Exiting r \<Rightarrow>
            Some (set_pc (s\<lparr>manager := (manager s)\<lparr>lock := False\<rparr>\<rparr>) i (Finished r))
        | Finished r \<Rightarrow> None)"

text \<open>
  \<^verbatim>\<open>generate_images\<close>: after the dependency and the validation of the body (a 422 of the
  framework), the handler queues the background task and answers at once.
\<close>

definition generate_images :: "system \<Rightarrow> string \<Rightarrow> GenerationParams \<Rightarrow> (http_error + response) \<times> system" where
  "generate_images s job_id0 p =
     (case verify_job_id (env s) job_id0 of
        Inl e \<Rightarrow> (Inl e, s)
      | Inr job_id \<Rightarrow>
          if \<not> valid_params p then (Inl (HTTPException 422 ''Unprocessable Entity''), s)
          else (Inr \<lparr>r_job_id = job_id, r_status = PROCESSING,
                     r_message = Some ''Generation started'', r_images = None\<rparr>,
                s\<lparr>tasks := tasks s @ [\<lparr>t_job = job_id, t_params = p, t_pc = Waiting\<rparr>]\<rparr>))"

text \<open>What can happen to the system: an upload, a generation request, a step of a task.\<close>

datatype event = Upload content string | Generate string GenerationParams | Run nat

fun apply_event :: "system \<Rightarrow> event \<Rightarrow> system option" where
  "apply_event s (Upload file job_id) =
     Some (s\<lparr>env := snd (upload_image (max_image_size s) (env s) file job_id)\<rparr>)"
| "apply_event s (Generate job_id p) = Some (snd (generate_images s job_id p))"
| "apply_event s (Run i) = step_task s i"

fun apply_events :: "system \<Rightarrow> event list \<Rightarrow> system option" where
  "apply_events s [] = Some s"
| "apply_events s (ev # evs) =
     (case apply_event s ev of None \<Rightarrow> None | Some s' \<Rightarrow> apply_events s' evs)"

inductive reachable :: "system \<Rightarrow> bool" where
  reach_init: "reachable (init_system svc w m)"
| reach_step: "reachable s \<Longrightarrow> apply_event s ev = Some s' \<Longrightarrow> reachable s'"

text \<open>Where a task stands with respect to the lock and to the gateway.\<close>

fun in_critical :: "pc \<Rightarrow> bool" where
  "in_critical Waiting = False"
| "in_critical (Finished r) = False"
| "in_critical _ = True"

fun in_gateway :: "pc \<Rightarrow> bool" where
  "in_gateway InGateway = True"
| "in_gateway _ = False"

text \<open>Running task \<open>i\<close> alone for \<open>n\<close> steps.\<close>

fun run_steps :: "system \<Rightarrow> nat \<Rightarrow> nat \<Rightarrow> system" where
  "run_steps s i 0 = s"
| "run_steps s i (Suc n) = (case step_task s i of None \<Rightarrow> s | Some s' \<Rightarrow> run_steps s' i n)"

text \<open>
  \<open>status_set c\<close>: the task has set the status to \<^verbatim>\<open>PROCESSING\<close> and not yet to a terminal
  one; \<open>started c\<close>: the task is past setting \<^verbatim>\<open>PROCESSING\<close>.
\<close>

fun status_set :: "pc \<Rightarrow> bool" where
  "status_set InGateway = True"
| "status_set (Returned r) = True"
| "status_set (Saved rs) = True"
| "status_set (Handler e) = True"
| "status_set _ = False"

fun started :: "pc \<Rightarrow> bool" where
  "started Waiting = False"
| "started Acquired = False"
| "started _ = True"

text \<open>
  The invariant of the lock: tasks inside the \<^verbatim>\<open>async with\<close> block hold the lock, there is
  at most one of them, and while it stands between setting \<^verbatim>\<open>PROCESSING\<close> and setting the
  terminal status, the status of its job is \<^verbatim>\<open>PROCESSING\<close>.
\<close>

definition lock_inv :: "system \<Rightarrow> bool" where
  "lock_inv s \<longleftrightarrow>
     (\<forall>i < length (tasks s). in_critical (t_pc (tasks s ! i)) \<longrightarrow> lock (manager s)) \<and>
     (\<forall>i < length (tasks s). \<forall>k < length (tasks s).
        in_critical (t_pc (tasks s ! i)) \<and> in_critical (t_pc (tasks s ! k)) \<longrightarrow> i = k) \<and>
     (\<forall>i < length (tasks s). status_set (t_pc (tasks s ! i)) \<longrightarrow>
        jobs (manager s) (t_job (tasks s ! i)) = Some PROCESSING)"

section \<open>A stub gateway and concrete runs\<close>

text \<open>
  A deterministic stand-in for the model: every sample shows the state of the random
  generators it was drawn with, and drawing advances them.
\<close>

definition stub_service :: ControlNetService where
  "stub_service =
     \<lparr>hwc3 = Inr,
      resize_image = (\<lambda>img r. Inr (img\<lparr>img_size := (nat r, nat r)\<rparr>)),
      apply_canny = (\<lambda>img lo hi. Inr img),
      sample = (\<lambda>d p g.
        (Inr (replicate (nat (num_samples p))
                \<lparr>img_size = img_size d, img_data = Pixels [torch_state g, numpy_state g]\<rparr>),
         \<lparr>torch_state = Suc (torch_state g), numpy_state = Suc (numpy_state g)\<rparr>))\<rparr>"

text \<open>The defaults of \<^verbatim>\<open>GenerationParams\<close>, with seed 42.\<close>

definition default_params :: GenerationParams where
  "default_params =
     \<lparr>prompt = ''a cat'', a_prompt = ''good quality'',
      n_prompt = ''lowres, bad anatomy, worst quality, low quality'',
      num_samples = 1, image_resolution = 512, ddim_steps = 20, strength = 1, scale = 9,
      seed = 42, eta = 0, low_threshold = 50, high_threshold = 100\<rparr>"

definition stub_image :: image where
  "stub_image = \<lparr>img_size = (640, 480), img_data = Pixels [1, 2, 3]\<rparr>"

definition empty_world :: world where
  "empty_world =
     \<lparr>files = [], dirs = {}, unwritable = {},
      rng_of = \<lparr>torch_state = 7, numpy_state = 11\<rparr>, written = []\<rparr>"

text \<open>The world after one upload: the job directory \<open>job-a\<close> with its input image.\<close>

definition uploaded_world :: world where
  "uploaded_world =
     \<lparr>files = [([''job-a'', ''input.png''], Png stub_image)], dirs = {[''job-a'']}, unwritable = {},
      rng_of = \<lparr>torch_state = 7, numpy_state = 11\<rparr>, written = [[''job-a'', ''input.png'']]\<rparr>"

text \<open>
  Two generations on the job \<open>job-a\<close>, one after the other: the first with two samples,
  the second with one.
\<close>

definition first_run :: "(error + string list) \<times> JobManager \<times> world" where
  "first_run =
     process_job (new_manager stub_service) uploaded_world ''job-a'' (default_params\<lparr>num_samples := 2\<rparr>)"

definition second_run :: "(error + string list) \<times> JobManager \<times> world" where
  "second_run = process_job (fst (snd first_run)) (snd (snd first_run)) ''job-a'' default_params"

section \<open>Properties of the file system and of the formatting\<close>

lemma map_of_filter_other:
  "q \<noteq> p \<Longrightarrow> map_of (filter (\<lambda>(k, _). k \<noteq> p) fs) q = map_of fs q"
  by (induction fs) auto

lemma fs_write_Inr:
  assumes "fs_write w p c = Inr w'"
  shows "lookup w' q = (if q = p then Some c else lookup w q)"
    and "written w' = written w @ [p]"
    and "dirs w' = dirs w"
    and "unwritable w' = unwritable w"
    and "rng_of w' = rng_of w"
  using assms
  by (auto simp: fs_write_def lookup_def map_of_filter_other split: if_splits)

lemma digit_char_inj: "a < 10 \<Longrightarrow> b < 10 \<Longrightarrow> digit_char a = digit_char b \<Longrightarrow> a = b"
proof -
  assume a: "a < 10" and b: "b < 10" and e: "digit_char a = digit_char b"
  from e have "(of_char (char_of (48 + a) :: char) :: nat) = of_char (char_of (48 + b) :: char)"
    by (simp add: digit_char_def)
  then have "(48 + a) mod 256 = (48 + b) mod 256"
    by (simp only: of_char_of)
  with a b show ?thesis by simp
qed

lemma str_nat_nonempty: "str_nat n \<noteq> []"
  by (subst str_nat.simps) simp

lemma str_nat_inj: "str_nat n = str_nat m \<Longrightarrow> n = m"
proof (induction n arbitrary: m rule: str_nat.induct)
  case (1 n)
  show ?case
  proof (cases "n < 10")
    case True
    show ?thesis
    proof (cases "m < 10")
      case True
      with \<open>n < 10\<close> "1.prems" show ?thesis
        by (simp add: str_nat.simps[of n] str_nat.simps[of m] digit_char_inj)
    next
      case False
      with \<open>n < 10\<close> "1.prems" str_nat_nonempty[of "m div 10"] show ?thesis
        by (simp add: str_nat.simps[of n] str_nat.simps[of m])
    qed
  next
    case False
    show ?thesis
    proof (cases "m < 10")
      case True
      with \<open>\<not> n < 10\<close> "1.prems" str_nat_nonempty[of "n div 10"] show ?thesis
        by (simp add: str_nat.simps[of n] str_nat.simps[of m])
    next
      case mf: False
      from False mf "1.prems" have e: "str_nat (n div 10) = str_nat (m div 10)"
        and d: "digit_char (n mod 10) = digit_char (m mod 10)"
        by (simp_all add: str_nat.simps[of n] str_nat.simps[of m])
      from "1.IH"[OF False e] have "n div 10 = m div 10" .
      moreover from d have "n mod 10 = m mod 10" by (simp add: digit_char_inj)
      ultimately show ?thesis by (metis div_mult_mod_eq)
    qed
  qed
qed


lemma result_name_inj: "result_name a = result_name b \<Longrightarrow> a = b"
  by (simp add: result_name_def str_nat_inj)

lemma drop_prefix_len: "drop (length xs) (xs @ ys) = ys"
  by (induction xs) simp_all

lemma is_result_file_affix: "s \<noteq> [] \<Longrightarrow> is_result_file (''result_'' @ s @ ''.png'')"
proof -
  assume "s \<noteq> []"
  then have l: "1 \<le> length s" by (cases s) simp_all
  let ?n = "''result_'' @ s @ ''.png''"
  have len: "length ?n = 11 + length s" by simp
  have pre: "take 7 ?n = ''result_''" by simp
  have "length ?n - 4 = length (''result_'' @ s)" by simp
  then have "drop (length ?n - 4) ?n = drop (length (''result_'' @ s)) ((''result_'' @ s) @ ''.png'')"
    by (simp only: append_assoc)
  also have "\<dots> = ''.png''" by (rule drop_prefix_len)
  finally have suf: "drop (length ?n - 4) ?n = ''.png''" .
  from l len have "11 \<le> length ?n" by linarith
  with pre suf show ?thesis unfolding is_result_file_def by blast
qed

lemma is_result_file_result_name: "is_result_file (result_name k)"
  unfolding result_name_def by (rule is_result_file_affix) (rule str_nat_nonempty)

lemma result_name_not_metadata: "result_name k \<noteq> ''metadata.json''"
  by (simp add: result_name_def)

lemma result_name_not_input: "result_name k \<noteq> ''input.png''"
  by (simp add: result_name_def)

lemma not_result_file_metadata: "\<not> is_result_file ''metadata.json''"
  by (simp add: is_result_file_def)

lemma not_result_file_input: "\<not> is_result_file ''input.png''"
  by (simp add: is_result_file_def)

lemma save_results_frame:
  "save_results w j idx imgs acc = (r, w') \<Longrightarrow>
     dirs w' = dirs w \<and> unwritable w' = unwritable w \<and> rng_of w' = rng_of w"
proof (induction imgs arbitrary: w idx acc)
  case Nil
  then show ?case by simp
next
  case (Cons img imgs)
  show ?case
  proof (cases "fs_write w [j, result_name idx] (Png img)")
    case (Inl e)
    with Cons.prems show ?thesis by simp
  next
    case (Inr w1)
    with Cons.prems have "save_results w1 j (Suc idx) imgs (acc @ [result_name idx]) = (r, w')"
      by simp
    from Cons.IH[OF this] fs_write_Inr(3-5)[OF Inr] show ?thesis by simp
  qed
qed

lemma save_results_written:
  "save_results w j idx imgs acc = (r, w') \<Longrightarrow>
     \<exists>m\<le>length imgs. written w' = written w @ map (\<lambda>k. [j, result_name k]) [idx..<idx + m] \<and>
        (\<forall>rs. r = Inr rs \<longrightarrow> m = length imgs \<and> rs = acc @ map result_name [idx..<idx + m])"
proof (induction imgs arbitrary: w idx acc)
  case Nil
  then show ?case by auto
next
  case (Cons img imgs)
  show ?case
  proof (cases "fs_write w [j, result_name idx] (Png img)")
    case (Inl e)
    with Cons.prems have "r = Inl e" "w' = w" by simp_all
    then show ?thesis by (intro exI[of _ 0]) simp
  next
    case (Inr w1)
    with Cons.prems have "save_results w1 j (Suc idx) imgs (acc @ [result_name idx]) = (r, w')"
      by simp
    from Cons.IH[OF this] obtain m where m: "m \<le> length imgs"
      "written w' = written w1 @ map (\<lambda>k. [j, result_name k]) [Suc idx..<Suc idx + m]"
      "\<forall>rs. r = Inr rs \<longrightarrow> m = length imgs \<and> rs = (acc @ [result_name idx]) @ map result_name [Suc idx..<Suc idx + m]"
      by blast
    have u: "[idx..<idx + Suc m] = idx # [Suc idx..<Suc idx + m]"
      by (simp add: upt_conv_Cons del: upt_Suc)
    show ?thesis
    proof (intro exI[of _ "Suc m"] conjI allI impI)
      show "Suc m \<le> length (img # imgs)" using m(1) by simp
      show "written w' = written w @ map (\<lambda>k. [j, result_name k]) [idx..<idx + Suc m]"
        unfolding u using m(2) fs_write_Inr(2)[OF Inr] by simp
    next
      fix rs assume "r = Inr rs"
      with m(3) show "Suc m = length (img # imgs)" by simp
    next
      fix rs assume "r = Inr rs"
      with m(3) have "rs = (acc @ [result_name idx]) @ map result_name [Suc idx..<Suc idx + m]"
        by blast
      then show "rs = acc @ map result_name [idx..<idx + Suc m]"
        unfolding u by simp
    qed
  qed
qed

lemma save_results_lookup_other:
  "save_results w j idx imgs acc = (r, w') \<Longrightarrow> (\<And>k. q \<noteq> [j, result_name k]) \<Longrightarrow>
     lookup w' q = lookup w q"
proof (induction imgs arbitrary: w idx acc)
  case Nil
  then show ?case by simp
next
  case (Cons img imgs)
  show ?case
  proof (cases "fs_write w [j, result_name idx] (Png img)")
    case (Inl e)
    with Cons.prems show ?thesis by simp
  next
    case (Inr w1)
    with Cons.prems have "save_results w1 j (Suc idx) imgs (acc @ [result_name idx]) = (r, w')"
      by simp
    from Cons.IH[OF this Cons.prems(2)] fs_write_Inr(1)[OF Inr, of q] Cons.prems(2)[of idx]
    show ?thesis by simp
  qed
qed

lemma save_results_lookup_old:
  "save_results w j idx imgs acc = (r, w') \<Longrightarrow> k < idx \<Longrightarrow>
     lookup w' [j, result_name k] = lookup w [j, result_name k]"
proof (induction imgs arbitrary: w idx acc)
  case Nil
  then show ?case by simp
next
  case (Cons img imgs)
  show ?case
  proof (cases "fs_write w [j, result_name idx] (Png img)")
    case (Inl e)
    with Cons.prems show ?thesis by simp
  next
    case (Inr w1)
    with Cons.prems have "save_results w1 j (Suc idx) imgs (acc @ [result_name idx]) = (r, w')"
      by simp
    from Cons.IH[OF this] Cons.prems(2) have "lookup w' [j, result_name k] = lookup w1 [j, result_name k]"
      by simp
    moreover from Cons.prems(2) have "result_name k \<noteq> result_name idx"
      using result_name_inj by blast
    ultimately show ?thesis using fs_write_Inr(1)[OF Inr, of "[j, result_name k]"] by simp
  qed
qed

lemma save_results_lookup_new:
  "save_results w j idx imgs acc = (Inr rs, w') \<Longrightarrow> k < length imgs \<Longrightarrow>
     lookup w' [j, result_name (idx + k)] = Some (Png (imgs ! k))"
proof (induction imgs arbitrary: w idx acc k)
  case Nil
  then show ?case by simp
next
  case (Cons img imgs)
  show ?case
  proof (cases "fs_write w [j, result_name idx] (Png img)")
    case (Inl e)
    with Cons.prems show ?thesis by simp
  next
    case (Inr w1)
    with Cons.prems have sr: "save_results w1 j (Suc idx) imgs (acc @ [result_name idx]) = (Inr rs, w')"
      by simp
    show ?thesis
    proof (cases k)
      case 0
      from save_results_lookup_old[OF sr, of idx] fs_write_Inr(1)[OF Inr, of "[j, result_name idx]"] 0
      show ?thesis by simp
    next
      case (Suc k')
      with Cons.prems(2) have "k' < length imgs" by simp
      from Cons.IH[OF sr this] Suc show ?thesis by simp
    qed
  qed
qed

section \<open>The API layer: unknown jobs and result files\<close>

lemma str_nat_404: "str_nat 404 = ''404''"
  by code_simp


lemma verify_job_id_present: "path_exists w [job_id] \<Longrightarrow> verify_job_id w job_id = Inr job_id"
  by (simp add: verify_job_id_def)



text \<open>
  The other direction: once the path exists, the status poll answers with the status of
  the coordinator (\<^verbatim>\<open>PENDING\<close> for a job never run), whatever else is on disk.
\<close>

lemma known_job_status:
  assumes "path_exists w [job_id]"
  shows "\<exists>imgs. get_job_status_endpoint jm w job_id =
           Inr \<lparr>r_job_id = job_id, r_status = get_job_status jm job_id, r_message = None, r_images = imgs\<rparr>"
  using assms
  by (simp add: get_job_status_endpoint_def verify_job_id_present Let_def)

text \<open>
  The result fetch serves whatever file lies in the job directory under the requested
  name: the name is not checked against the result pattern.
\<close>

lemma get_result_image_serves_any_file:
  assumes "path_exists w [job_id]" and "lookup w [job_id, image_name] = Some c"
  shows "get_result_image w job_id image_name = Inr c"
  using assms
  by (simp add: get_result_image_def verify_job_id_present result_image_body_def
      file_response_def path_exists_def)

lemma get_result_image_missing:
  assumes "path_exists w [job_id]" and "\<not> path_exists w [job_id, image_name]"
  shows "get_result_image w job_id image_name = Inl (HTTPException 500 ''404: Image not found'')"
  using assms
  by (simp add: get_result_image_def verify_job_id_present result_image_body_def str_nat_404)

text \<open>
  Claim C10. In the job directory \<open>job-a\<close>, which holds only \<open>input.png\<close>, the fetch of
  \<open>input.png\<close> serves the uploaded image, and the fetch of the missing \<open>result_7.png\<close> does
  not answer 404: the \<^verbatim>\<open>HTTPException(404)\<close> is raised inside the handler's own
  \<^verbatim>\<open>try\<close>, caught by \<^verbatim>\<open>except Exception\<close> and turned into a 500.
\<close>

theorem get_result_image_missing_file_is_500:
  "get_result_image uploaded_world ''job-a'' ''input.png'' = Inr (Png stub_image)
   \<and> \<not> path_exists uploaded_world [''job-a'', ''result_7.png'']
   \<and> get_result_image uploaded_world ''job-a'' ''result_7.png''
       = Inl (HTTPException 500 ''404: Image not found'')"
proof -
  have d: "path_exists uploaded_world [''job-a'']"
    by (simp add: uploaded_world_def path_exists_def)
  have f: "lookup uploaded_world [''job-a'', ''input.png''] = Some (Png stub_image)"
    by (simp add: uploaded_world_def lookup_def)
  have m: "\<not> path_exists uploaded_world [''job-a'', ''result_7.png'']"
    by (simp add: uploaded_world_def path_exists_def lookup_def)
  from get_result_image_serves_any_file[OF d f] get_result_image_missing[OF d m] m
  show ?thesis by simp
qed

section \<open>The gateway: seeding\<close>

lemma generate_seeded:
  assumes "seed p \<noteq> - 1"
  shows "fst (generate svc img p g) = fst (generate svc img p g')"
proof (cases "seed p < - (2 ^ 63) \<or> 2 ^ 64 \<le> seed p")
  case True
  with assms show ?thesis
    by (simp add: generate_def manual_seed_def split: sum.splits prod.splits)
next
  case False
  note in64 = this
  show ?thesis
  proof (cases "seed p < 0 \<or> 2 ^ 32 \<le> seed p")
    case True
    with assms in64 show ?thesis
      by (simp add: generate_def manual_seed_def split: sum.splits prod.splits)
  next
    case False
    with assms in64 show ?thesis
      by (simp add: generate_def manual_seed_def split: sum.splits prod.splits)
  qed
qed

lemma generate_stub_unseeded:
  "fst (generate stub_service stub_image (default_params\<lparr>seed := - 1\<rparr>) \<lparr>torch_state = a, numpy_state = b\<rparr>)
     = Inr [\<lparr>img_size = (512, 512), img_data = Pixels [a, b]\<rparr>]"
  by (simp add: generate_def stub_service_def stub_image_def default_params_def first_samples_def)

text \<open>
  Claim C9. With a seed other than \<open>-1\<close>, what \<^verbatim>\<open>_generate\<close> returns (the images or the
  exception) does not depend on the state the random generators were in before the call:
  two runs on the same image with the same parameters give the same outcome. With the
  seed \<open>-1\<close> the generators are left as they are, and the stub gateway, whose samples show
  the generator state, returns different images from different states.
\<close>

theorem generate_deterministic_given_seed:
  assumes "seed p \<noteq> - 1"
  shows "fst (generate svc img p g) = fst (generate svc img p g')
       \<and> fst (generate stub_service stub_image (default_params\<lparr>seed := - 1\<rparr>) \<lparr>torch_state = 7, numpy_state = 11\<rparr>)
           \<noteq> fst (generate stub_service stub_image (default_params\<lparr>seed := - 1\<rparr>) \<lparr>torch_state = 8, numpy_state = 12\<rparr>)"
  using generate_seeded[OF assms, of svc img g g']
  by (simp add: generate_stub_unseeded)

theorem generate_deterministic_given_seed_witness:
  "seed default_params \<noteq> - 1
   \<and> fst (generate stub_service stub_image default_params \<lparr>torch_state = 7, numpy_state = 11\<rparr>)
       = fst (generate stub_service stub_image default_params \<lparr>torch_state = 8, numpy_state = 12\<rparr>)
   \<and> fst (generate stub_service stub_image default_params \<lparr>torch_state = 7, numpy_state = 11\<rparr>)
       = Inr [\<lparr>img_size = (512, 512), img_data = Pixels [42, 42]\<rparr>]"
proof -
  have h: "seed default_params \<noteq> - 1"
    by (simp add: default_params_def)
  have v: "fst (generate stub_service stub_image default_params \<lparr>torch_state = 7, numpy_state = 11\<rparr>)
       = Inr [\<lparr>img_size = (512, 512), img_data = Pixels [42, 42]\<rparr>]"
    by (simp add: generate_def stub_service_def stub_image_def default_params_def first_samples_def
        manual_seed_def)
  from generate_deterministic_given_seed[OF h, of stub_service stub_image
      "\<lparr>torch_state = 7, numpy_state = 11\<rparr>" "\<lparr>torch_state = 8, numpy_state = 12\<rparr>"] h v
  show ?thesis by simp
qed

section \<open>The gateway: what a call writes\<close>

lemma first_samples_length: "first_samples xs n = Inr ys \<Longrightarrow> length ys = nat n"
  by (auto simp: first_samples_def split: if_splits)

lemma generate_length:
  assumes "generate svc img p g = (Inr results, g')"
  shows "length results = nat (num_samples p)"
  using assms
  by (auto simp: generate_def first_samples_length split: sum.splits prod.splits if_splits)

lemma process_image_frame:
  assumes "process_image svc w job_id p = (r, w')"
  shows "dirs w' = dirs w \<and> unwritable w' = unwritable w"
proof (cases "load_image w [job_id, ''input.png'']")
  case (Inl e)
  with assms show ?thesis by (simp add: process_image_def)
next
  case (Inr img)
  obtain r0 g where g: "generate svc img p (rng_of w) = (r0, g)" by (cases "generate svc img p (rng_of w)")
  show ?thesis
  proof (cases r0)
    case (Inl e)
    with assms Inr g show ?thesis by (auto simp: process_image_def)
  next
    case r: (Inr results)
    with assms Inr g have "save_results (w\<lparr>rng_of := g\<rparr>) job_id 0 results [] = (r, w')"
      by (simp add: process_image_def)
    from save_results_frame[OF this] show ?thesis by simp
  qed
qed

lemma process_image_lookup_other:
  assumes "process_image svc w job_id p = (r, w')" and "\<And>k. q \<noteq> [job_id, result_name k]"
  shows "lookup w' q = lookup w q"
proof (cases "load_image w [job_id, ''input.png'']")
  case (Inl e)
  with assms show ?thesis by (simp add: process_image_def)
next
  case (Inr img)
  obtain r0 g where g: "generate svc img p (rng_of w) = (r0, g)" by (cases "generate svc img p (rng_of w)")
  show ?thesis
  proof (cases r0)
    case (Inl e)
    with assms Inr g show ?thesis by (auto simp: process_image_def lookup_def)
  next
    case r: (Inr results)
    with assms Inr g have "save_results (w\<lparr>rng_of := g\<rparr>) job_id 0 results [] = (r, w')"
      by (simp add: process_image_def)
    from save_results_lookup_other[OF this assms(2)] show ?thesis by (simp add: lookup_def)
  qed
qed

text \<open>
  Whatever a gateway call returns, the files it wrote are \<open>result_0.png\<close>, \<open>result_1.png\<close>,
  ... in this order; when it returns, they are \<open>num_samples\<close> many and it returns their
  names.
\<close>

lemma process_image_written:
  assumes "process_image svc w job_id p = (r, w')"
  shows "\<exists>m \<le> nat (num_samples p).
           written w' = written w @ map (\<lambda>k. [job_id, result_name k]) [0..<m] \<and>
           (\<forall>rs. r = Inr rs \<longrightarrow> m = nat (num_samples p) \<and> rs = map result_name [0..<m])"
proof (cases "load_image w [job_id, ''input.png'']")
  case (Inl e)
  with assms have "w' = w" "r = Inl e" by (simp_all add: process_image_def)
  then show ?thesis by (intro exI[of _ 0]) simp
next
  case (Inr img)
  obtain r0 g where g: "generate svc img p (rng_of w) = (r0, g)" by (cases "generate svc img p (rng_of w)")
  show ?thesis
  proof (cases r0)
    case (Inl e)
    with assms Inr g have "w' = w\<lparr>rng_of := g\<rparr>" "r = Inl e" by (simp_all add: process_image_def)
    then show ?thesis by (intro exI[of _ 0]) simp
  next
    case r: (Inr results)
    with g have len: "length results = nat (num_samples p)" by (simp add: generate_length)
    from assms Inr g r have "save_results (w\<lparr>rng_of := g\<rparr>) job_id 0 results [] = (r, w')"
      by (simp add: process_image_def)
    from save_results_written[OF this] len show ?thesis by simp
  qed
qed

lemma process_image_files:
  assumes "process_image svc w job_id p = (Inr rs, w')" and "k < nat (num_samples p)"
  shows "\<exists>img. lookup w' [job_id, result_name k] = Some (Png img)"
proof (cases "load_image w [job_id, ''input.png'']")
  case (Inl e)
  with assms show ?thesis by (simp add: process_image_def)
next
  case (Inr img)
  obtain r0 g where g: "generate svc img p (rng_of w) = (r0, g)" by (cases "generate svc img p (rng_of w)")
  show ?thesis
  proof (cases r0)
    case (Inl e)
    with assms Inr g show ?thesis by (simp add: process_image_def)
  next
    case r: (Inr results)
    with g have len: "length results = nat (num_samples p)" by (simp add: generate_length)
    from assms Inr g r have "save_results (w\<lparr>rng_of := g\<rparr>) job_id 0 results [] = (Inr rs, w')"
      by (simp add: process_image_def)
    from save_results_lookup_new[OF this, of k] assms(2) len show ?thesis by simp
  qed
qed

section \<open>The coordinator: one run\<close>

lemma get_job_status_set_status:
  "get_job_status (set_status jm j st) j' = (if j' = j then st else get_job_status jm j')"
  by (simp add: get_job_status_def set_status_def)

lemma controlnet_set_status [simp]: "controlnet (set_status jm j st) = controlnet jm"
  by (simp add: set_status_def)

lemma lock_set_status [simp]: "lock (set_status jm j st) = lock jm"
  by (simp add: set_status_def)

lemma process_job_failure:
  assumes "process_image (controlnet jm) w job_id p = (Inl e, w1)"
  shows "process_job jm w job_id p = (Inl e, set_status (set_status jm job_id PROCESSING) job_id FAILED, w1)"
  using assms by (simp add: process_job_def Let_def)

lemma metadata_path_not_result: "[job_id, ''metadata.json''] \<noteq> [job_id', result_name k]"
  using result_name_not_metadata[of k] by auto

text \<open>
  Claim C3. When the gateway call raises \<open>e\<close>, the run raises the same \<open>e\<close>, the status of
  the job is \<^verbatim>\<open>FAILED\<close> afterwards (the status of every other job is untouched), and the
  run has written no metadata: the file at \<open>metadata.json\<close> is what it was before, and no
  write of the run went to that path.
\<close>

theorem gateway_failure_marks_job_failed:
  assumes "process_image (controlnet jm) w job_id p = (Inl e, w1)"
  shows "fst (process_job jm w job_id p) = Inl e
       \<and> get_job_status (fst (snd (process_job jm w job_id p))) job_id = FAILED
       \<and> (\<forall>other. other \<noteq> job_id \<longrightarrow>
            get_job_status (fst (snd (process_job jm w job_id p))) other = get_job_status jm other)
       \<and> snd (snd (process_job jm w job_id p)) = w1
       \<and> lookup w1 [job_id, ''metadata.json''] = lookup w [job_id, ''metadata.json'']
       \<and> [job_id, ''metadata.json''] \<notin> set (drop (length (written w)) (written w1))"
proof -
  from process_image_written[OF assms] obtain m where
    m: "written w1 = written w @ map (\<lambda>k. [job_id, result_name k]) [0..<m]" by blast
  have "[job_id, ''metadata.json''] \<notin> set (map (\<lambda>k. [job_id, result_name k]) [0..<m])"
    using metadata_path_not_result by auto
  with m have nw: "[job_id, ''metadata.json''] \<notin> set (drop (length (written w)) (written w1))"
    by simp
  have same: "lookup w1 [job_id, ''metadata.json''] = lookup w [job_id, ''metadata.json'']"
    by (rule process_image_lookup_other[OF assms]) (rule metadata_path_not_result)
  from process_job_failure[OF assms] nw same show ?thesis
    by (simp add: get_job_status_set_status)
qed

theorem gateway_failure_marks_job_failed_witness:
  "process_image (controlnet (new_manager stub_service)) empty_world ''job-a'' default_params
     = (Inl (ValueError ''Failed to load input image''), empty_world)
   \<and> fst (process_job (new_manager stub_service) empty_world ''job-a'' default_params)
       = Inl (ValueError ''Failed to load input image'')
   \<and> get_job_status (fst (snd (process_job (new_manager stub_service) empty_world ''job-a'' default_params)))
       ''job-a'' = FAILED"
proof -
  have h: "process_image (controlnet (new_manager stub_service)) empty_world ''job-a'' default_params
     = (Inl (ValueError ''Failed to load input image''), empty_world)"
    by (simp add: process_image_def load_image_def lookup_def empty_world_def)
  from gateway_failure_marks_job_failed[OF h] h show ?thesis by simp
qed

lemma save_results_lookup_unwritten:
  "save_results w j idx imgs acc = (r, w') \<Longrightarrow>
     (\<And>k. idx \<le> k \<Longrightarrow> k < idx + length imgs \<Longrightarrow> q \<noteq> [j, result_name k]) \<Longrightarrow>
     lookup w' q = lookup w q"
proof (induction imgs arbitrary: w idx acc)
  case Nil
  then show ?case by simp
next
  case (Cons img imgs)
  show ?case
  proof (cases "fs_write w [j, result_name idx] (Png img)")
    case (Inl e)
    with Cons.prems show ?thesis by simp
  next
    case (Inr w1)
    with Cons.prems have sr: "save_results w1 j (Suc idx) imgs (acc @ [result_name idx]) = (r, w')"
      by simp
    have "lookup w' q = lookup w1 q"
      by (rule Cons.IH[OF sr]) (use Cons.prems(2) in simp)
    moreover have "q \<noteq> [j, result_name idx]"
      using Cons.prems(2)[of idx] by simp
    ultimately show ?thesis using fs_write_Inr(1)[OF Inr, of q] by simp
  qed
qed

lemma process_image_lookup_unwritten:
  assumes "process_image svc w job_id p = (r, w')"
    and "\<And>k. k < nat (num_samples p) \<Longrightarrow> q \<noteq> [job_id, result_name k]"
  shows "lookup w' q = lookup w q"
proof (cases "load_image w [job_id, ''input.png'']")
  case (Inl e)
  with assms show ?thesis by (simp add: process_image_def)
next
  case (Inr img)
  obtain r0 g where g: "generate svc img p (rng_of w) = (r0, g)" by (cases "generate svc img p (rng_of w)")
  show ?thesis
  proof (cases r0)
    case (Inl e)
    with assms Inr g show ?thesis by (auto simp: process_image_def lookup_def)
  next
    case r: (Inr results)
    with g have len: "length results = nat (num_samples p)" by (simp add: generate_length)
    from assms Inr g r have sr: "save_results (w\<lparr>rng_of := g\<rparr>) job_id 0 results [] = (r, w')"
      by (simp add: process_image_def)
    have "lookup w' q = lookup (w\<lparr>rng_of := g\<rparr>) q"
      by (rule save_results_lookup_unwritten[OF sr]) (use assms(2) len in simp)
    then show ?thesis by (simp add: lookup_def)
  qed
qed

lemma glob_results_set:
  "set (glob_results w job_id) = {n. is_result_file n \<and> lookup w [job_id, n] \<noteq> None}"
proof (intro set_eqI iffI)
  fix n
  assume "n \<in> set (glob_results w job_id)"
  then obtain q c where qc: "(q, c) \<in> set (files w)" "length q = 2" "hd q = job_id"
    "is_result_file (last q)" "n = last q"
    by (auto simp: glob_results_def)
  from qc(2) obtain a b where "q = [a, b]"
    by (cases q; cases "tl q"; cases "tl (tl q)") auto
  with qc have "q = [job_id, n]" by simp
  with qc(1) have "[job_id, n] \<in> fst ` set (files w)" by force
  then have "lookup w [job_id, n] \<noteq> None"
    by (simp add: lookup_def map_of_eq_None_iff)
  with qc show "n \<in> {n. is_result_file n \<and> lookup w [job_id, n] \<noteq> None}" by simp
next
  fix n
  assume "n \<in> {n. is_result_file n \<and> lookup w [job_id, n] \<noteq> None}"
  then have r: "is_result_file n" and "lookup w [job_id, n] \<noteq> None" by simp_all
  then have "[job_id, n] \<in> fst ` set (files w)"
    by (simp add: lookup_def map_of_eq_None_iff)
  then obtain c where "([job_id, n], c) \<in> set (files w)" by force
  with r show "n \<in> set (glob_results w job_id)"
    by (force simp: glob_results_def)
qed

lemma save_job_metadata_Inr:
  assumes "save_job_metadata w job_id p rs = Inr w'"
  shows "lookup w' q = (if q = [job_id, ''metadata.json''] then Some (JsonDoc (metadata_doc p rs)) else lookup w q)"
    and "written w' = written w @ [[job_id, ''metadata.json'']]"
  using assms fs_write_Inr(1,2)[of w "[job_id, ''metadata.json'']" "JsonDoc (metadata_doc p rs)" w']
  by (simp_all add: save_job_metadata_def)

lemma process_job_success:
  assumes "process_job jm w job_id p = (Inr rs, jm', w')"
  obtains w1 where "process_image (controlnet jm) w job_id p = (Inr rs, w1)"
    and "save_job_metadata w1 job_id p rs = Inr w'"
    and "jm' = set_status (set_status jm job_id PROCESSING) job_id COMPLETED"
proof -
  obtain r0 w1 where pi: "process_image (controlnet jm) w job_id p = (r0, w1)"
    by (cases "process_image (controlnet jm) w job_id p")
  show thesis
  proof (cases r0)
    case (Inl e)
    with pi assms show ?thesis by (simp add: process_job_def Let_def)
  next
    case (Inr rs0)
    show ?thesis
    proof (cases "save_job_metadata w1 job_id p rs0")
      case (Inl e)
      with pi Inr assms show ?thesis by (simp add: process_job_def Let_def)
    next
      case sv: (Inr w2)
      with pi Inr assms have "rs0 = rs" "w2 = w'"
        "jm' = set_status (set_status jm job_id PROCESSING) job_id COMPLETED"
        by (simp_all add: process_job_def Let_def)
      with pi Inr sv that show ?thesis by simp
    qed
  qed
qed

lemma distinct_result_names: "distinct (map result_name [0..<m])"
  by (simp add: distinct_map inj_on_def result_name_inj)

text \<open>Everything a run that returns has done.\<close>

lemma process_job_completed:
  assumes "process_job jm w job_id p = (Inr rs, jm', w')"
  shows "rs = map result_name [0..<nat (num_samples p)]
       \<and> length rs = nat (num_samples p) \<and> distinct rs
       \<and> written w' = written w @ map (\<lambda>n. [job_id, n]) rs @ [[job_id, ''metadata.json'']]
       \<and> (\<forall>n \<in> set rs. \<exists>img. lookup w' [job_id, n] = Some (Png img))
       \<and> lookup w' [job_id, ''metadata.json''] = Some (JsonDoc (metadata_doc p rs))
       \<and> set (glob_results w' job_id) = set rs \<union> set (glob_results w job_id)
       \<and> get_job_status jm' job_id = COMPLETED"
proof -
  from assms obtain w1 where pi: "process_image (controlnet jm) w job_id p = (Inr rs, w1)"
    and sv: "save_job_metadata w1 job_id p rs = Inr w'"
    and jm': "jm' = set_status (set_status jm job_id PROCESSING) job_id COMPLETED"
    by (rule process_job_success)
  let ?N = "nat (num_samples p)"
  from process_image_written[OF pi]
  have wr1: "written w1 = written w @ map (\<lambda>k. [job_id, result_name k]) [0..<?N]"
    and rs: "rs = map result_name [0..<?N]"
    by auto
  have len: "length rs = ?N" by (simp add: rs)
  have dist: "distinct rs" unfolding rs by (rule distinct_result_names)
  have wr: "written w' = written w @ map (\<lambda>n. [job_id, n]) rs @ [[job_id, ''metadata.json'']]"
    using save_job_metadata_Inr(2)[OF sv] wr1 by (simp add: rs comp_def)
  have look: "lookup w' [job_id, result_name k] = lookup w1 [job_id, result_name k]" for k
    using save_job_metadata_Inr(1)[OF sv, of "[job_id, result_name k]"] result_name_not_metadata[of k]
    by simp
  have files: "\<forall>n \<in> set rs. \<exists>img. lookup w' [job_id, n] = Some (Png img)"
  proof
    fix n assume "n \<in> set rs"
    then obtain k where k: "k < ?N" "n = result_name k" by (auto simp: rs)
    from process_image_files[OF pi k(1)] look[of k] k(2)
    show "\<exists>img. lookup w' [job_id, n] = Some (Png img)" by simp
  qed
  have meta: "lookup w' [job_id, ''metadata.json''] = Some (JsonDoc (metadata_doc p rs))"
    using save_job_metadata_Inr(1)[OF sv, of "[job_id, ''metadata.json'']"] by simp
  have other: "lookup w' [job_id, n] = lookup w [job_id, n]"
    if "n \<notin> set rs" "n \<noteq> ''metadata.json''" for n
  proof -
    from that(1) have "\<And>k. k < ?N \<Longrightarrow> [job_id, n] \<noteq> [job_id, result_name k]"
      by (auto simp: rs)
    from process_image_lookup_unwritten[OF pi this]
    have "lookup w1 [job_id, n] = lookup w [job_id, n]" by simp
    with save_job_metadata_Inr(1)[OF sv, of "[job_id, n]"] that(2) show ?thesis by simp
  qed
  have glob: "set (glob_results w' job_id) = set rs \<union> set (glob_results w job_id)"
  proof (intro set_eqI iffI)
    fix n assume "n \<in> set (glob_results w' job_id)"
    then have r: "is_result_file n" and e: "lookup w' [job_id, n] \<noteq> None"
      by (simp_all add: glob_results_set)
    from r have nm: "n \<noteq> ''metadata.json''" using not_result_file_metadata by auto
    show "n \<in> set rs \<union> set (glob_results w job_id)"
    proof (cases "n \<in> set rs")
      case True then show ?thesis by simp
    next
      case False
      from other[OF False nm] r e show ?thesis by (simp add: glob_results_set)
    qed
  next
    fix n assume "n \<in> set rs \<union> set (glob_results w job_id)"
    then show "n \<in> set (glob_results w' job_id)"
    proof
      assume n: "n \<in> set rs"
      then obtain k where "n = result_name k" by (auto simp: rs)
      with n files show ?thesis
        by (auto simp: glob_results_set is_result_file_result_name)
    next
      assume g: "n \<in> set (glob_results w job_id)"
      then have r: "is_result_file n" and e: "lookup w [job_id, n] \<noteq> None"
        by (simp_all add: glob_results_set)
      from r have nm: "n \<noteq> ''metadata.json''" using not_result_file_metadata by auto
      show ?thesis
      proof (cases "n \<in> set rs")
        case True
        then obtain k where "n = result_name k" by (auto simp: rs)
        with True files show ?thesis
          by (auto simp: glob_results_set is_result_file_result_name)
      next
        case False
        from other[OF False nm] r e show ?thesis by (simp add: glob_results_set)
      qed
    qed
  qed
  from rs len dist wr files meta glob jm' show ?thesis
    by (simp add: get_job_status_set_status)
qed

end
